theory Spec2Isabelle
  imports Complex_Main
begin

section \<open>Python values and exceptions\<close>

text \<open>
  The values \<open>request.get_json()\<close> and \<open>json.loads\<close> produce: \<open>None\<close>, booleans, ints,
  floats, strings, lists and dicts. A dict is an association list read with \<open>map_of\<close>;
  the keys of a Python dict are distinct.
\<close>

datatype json =
    JNull
  | JBool bool
  | JInt int
  | JFloat real
  | JStr string
  | JArr "json list"
  | JObj "(string \<times> json) list"

text \<open>
  The exceptions the two services can meet. \<open>ClientError\<close> is botocore's; its argument is
  what \<open>str(e)\<close> gives. \<open>OtherError\<close> stands for every other exception a client call
  may raise (a connection error, a parameter validation error).
\<close>

datatype exn =
    ClientError string
  | TypeError
  | KeyError
  | BadRequest
  | OtherError string

subsection \<open>The operators \<open>in\<close> and \<open>[]\<close> with a string on the left\<close>

fun str_startswith :: "string \<Rightarrow> string \<Rightarrow> bool" where
  "str_startswith s [] = True"
| "str_startswith [] (p # ps) = False"
| "str_startswith (c # cs) (p # ps) = (c = p \<and> str_startswith cs ps)"

fun str_contains :: "string \<Rightarrow> string \<Rightarrow> bool" where
  "str_contains [] sub = (sub = [])"
| "str_contains (c # cs) sub = (str_startswith (c # cs) sub \<or> str_contains cs sub)"

text \<open>
  \<open>k in v\<close> for a string \<open>k\<close>: a key test on a dict, an element test on a list, a
  substring test on a string, and a \<open>TypeError\<close> on everything else.
\<close>

fun py_in :: "string \<Rightarrow> json \<Rightarrow> exn + bool" where
  "py_in k (JObj kvs) = Inr (k \<in> set (map fst kvs))"
| "py_in k (JArr xs) = Inr (JStr k \<in> set xs)"
| "py_in k (JStr s) = Inr (str_contains s k)"
| "py_in k JNull = Inl TypeError"
| "py_in k (JBool b) = Inl TypeError"
| "py_in k (JInt i) = Inl TypeError"
| "py_in k (JFloat r) = Inl TypeError"

text \<open>
  \<open>v[k]\<close> for a string \<open>k\<close>: the value of a dict, \<open>KeyError\<close> when the key is missing,
  and a \<open>TypeError\<close> on a list, a string and everything else.
\<close>

fun py_getitem :: "json \<Rightarrow> string \<Rightarrow> exn + json" where
  "py_getitem (JObj kvs) k = (case map_of kvs k of None \<Rightarrow> Inl KeyError | Some v \<Rightarrow> Inr v)"
| "py_getitem v k = Inl TypeError"

text \<open>\<open>sep.join(xs)\<close>.\<close>

fun join :: "string \<Rightarrow> string list \<Rightarrow> string" where
  "join sep [] = []"
| "join sep [x] = x"
| "join sep (x # y # ys) = x @ sep @ join sep (y # ys)"

section \<open>Service 1: the REST API\<close>

text \<open>
  The AWS side of service 1. \<open>ssm_get_parameter n\<close> is what the \<open>n\<close>-th call of
  \<open>ssm_client.get_parameter\<close> does: raise, or return \<open>response['Parameter']['Value']\<close>.
  \<open>sqs_send_message n body\<close> is what the \<open>n\<close>-th call of \<open>sqs_client.send_message\<close> does
  with that body: raise, or return \<open>response['MessageId']\<close>. \<open>json_dumps\<close> is
  \<open>json.dumps\<close>.
\<close>

record api_env =
  ssm_get_parameter :: "nat \<Rightarrow> exn + string"
  sqs_send_message :: "nat \<Rightarrow> string \<Rightarrow> exn + string"
  json_dumps :: "json \<Rightarrow> string"

text \<open>
  The state of the process: the global \<open>api_token_cache\<close> (\<open>None\<close> at start), the number
  of \<open>get_parameter\<close> calls made so far and the bodies passed to \<open>send_message\<close> so far,
  oldest first.
\<close>

record api_state =
  api_token_cache :: "string option"
  ssm_calls :: nat
  sqs_sends :: "string list"

text \<open>
  The truth value of \<open>api_token_cache\<close> in \<open>if api_token_cache:\<close>: false on \<open>None\<close> and
  on the empty string.
\<close>

fun truthy :: "string option \<Rightarrow> bool" where
  "truthy None = False"
| "truthy (Some v) = (v \<noteq> [])"

text \<open>
  A cached value is returned without a call; otherwise \<open>get_parameter\<close> is called, its
  value stored in the cache and returned, and its exception raised again.
\<close>

definition get_api_token :: "api_env \<Rightarrow> api_state \<Rightarrow> (exn + string) \<times> api_state" where
  "get_api_token env s =
     (case (truthy (api_token_cache s), api_token_cache s) of
        (True, Some cached) \<Rightarrow> (Inr cached, s)
      | _ \<Rightarrow>
        (case ssm_get_parameter env (ssm_calls s) of
           Inr v \<Rightarrow> (Inr v, s\<lparr>api_token_cache := Some v, ssm_calls := Suc (ssm_calls s)\<rparr>)
         | Inl e \<Rightarrow> (Inl e, s\<lparr>ssm_calls := Suc (ssm_calls s)\<rparr>)))"

definition required_fields :: "string list" where
  "required_fields = [''email_subject'', ''email_sender'', ''email_timestream'', ''email_content'']"

text \<open>
  The comprehension \<open>[field for field in required_fields if field not in data]\<close>: the
  first membership test that raises ends it.
\<close>

fun missing_fields :: "string list \<Rightarrow> json \<Rightarrow> exn + string list" where
  "missing_fields [] data = Inr []"
| "missing_fields (field # others) data =
     (case py_in field data of
        Inl e \<Rightarrow> Inl e
      | Inr present \<Rightarrow>
          (case missing_fields others data of
             Inl e \<Rightarrow> Inl e
           | Inr rest \<Rightarrow> Inr (if present then rest else field # rest)))"

definition validate_payload :: "json \<Rightarrow> exn + (bool \<times> string option)" where
  "validate_payload payload =
     (case py_in ''data'' payload of
        Inl e \<Rightarrow> Inl e
      | Inr has_data \<Rightarrow>
          if \<not> has_data then Inr (False, Some ''Missing 'data' field'')
          else
            (case py_in ''token'' payload of
               Inl e \<Rightarrow> Inl e
             | Inr has_token \<Rightarrow>
                 if \<not> has_token then Inr (False, Some ''Missing 'token' field'')
                 else
                   (case py_getitem payload ''data'' of
                      Inl e \<Rightarrow> Inl e
                    | Inr data \<Rightarrow>
                        (case missing_fields required_fields data of
                           Inl e \<Rightarrow> Inl e
                         | Inr missing \<Rightarrow>
                             if missing \<noteq> []
                             then Inr (False,
                                    Some (''Missing required fields in data: '' @ join '', '' missing))
                             else Inr (True, None)))))"

text \<open>
  \<open>provided_token == expected_token\<close> compares a JSON value with a string: it holds on
  the same string only. Every exception of \<open>get_api_token\<close> is caught.
\<close>

definition validate_token :: "api_env \<Rightarrow> json \<Rightarrow> api_state \<Rightarrow> (bool \<times> string option) \<times> api_state" where
  "validate_token env provided_token s =
     (case get_api_token env s of
        (Inr expected_token, s') \<Rightarrow>
          if provided_token = JStr expected_token then ((True, None), s')
          else ((False, Some ''Invalid ???token''), s')
      | (Inl e, s') \<Rightarrow> ((False, Some ''Token validation failed''), s'))"

text \<open>Only \<open>ClientError\<close> is caught; any other exception of \<open>send_message\<close> goes up.\<close>

definition send_to_sqs :: "api_env \<Rightarrow> json \<Rightarrow> api_state \<Rightarrow> (exn + (bool \<times> string)) \<times> api_state" where
  "send_to_sqs env data s =
     (let body = json_dumps env data;
          s' = s\<lparr>sqs_sends := sqs_sends s @ [body]\<rparr>
      in case sqs_send_message env (length (sqs_sends s)) body of
           Inr message_id \<Rightarrow> (Inr (True, message_id), s')
         | Inl (ClientError msg) \<Rightarrow> (Inr (False, msg), s')
         | Inl e \<Rightarrow> (Inl e, s'))"

text \<open>
  The request as the handler sees it: \<open>request.is_json\<close>, and what \<open>request.get_json()\<close>
  gives, \<open>None\<close> when the body does not parse (Flask then raises \<open>BadRequest\<close>).
\<close>

record request =
  is_json :: bool
  get_json :: "json option"

text \<open>\<open>jsonify({"error": error_msg})\<close>.\<close>

definition error_body :: "string option \<Rightarrow> json" where
  "error_body error_msg = JObj [(''error'', (case error_msg of None \<Rightarrow> JNull | Some m \<Rightarrow> JStr m))]"

text \<open>The handler of \<open>POST /api/message\<close>: the body and the status it returns, or the
  exception that leaves it.\<close>

definition api_process_message ::
  "api_env \<Rightarrow> request \<Rightarrow> api_state \<Rightarrow> (exn + (json \<times> nat)) \<times> api_state" where
  "api_process_message env req s =
     (if \<not> is_json req
      then (Inr (error_body (Some ''Content-Type must be application/json''), 400), s)
      else
        (case get_json req of
           None \<Rightarrow> (Inl BadRequest, s)
         | Some payload \<Rightarrow>
             (case validate_payload payload of
                Inl e \<Rightarrow> (Inl e, s)
              | Inr (is_valid, error_msg) \<Rightarrow>
                  if \<not> is_valid then (Inr (error_body error_msg, 400), s)
                  else
                    (case py_getitem payload ''token'' of
                       Inl e \<Rightarrow> (Inl e, s)
                     | Inr token \<Rightarrow>
                         (case validate_token env token s of
                            ((is_valid, error_msg), s1) \<Rightarrow>
                              if \<not> is_valid then (Inr (error_body error_msg, 401), s1)
                              else
                                (case py_getitem payload ''data'' of
                                   Inl e \<Rightarrow> (Inl e, s1)
                                 | Inr data \<Rightarrow>
                                     (case send_to_sqs env data s1 of
                                        (Inl e, s2) \<Rightarrow> (Inl e, s2)
                                      | (Inr (success, result), s2) \<Rightarrow>
                                          if \<not> success
                                          then (Inr (error_body (Some (''Failed to send message: '' @ result)), 500), s2)
                                          else (Inr (JObj [(''status'', JStr ''success''),
                                                           (''message'', JStr ''Message sent to queue''),
                                                           (''message_id'', JStr result)], 200), s2))))))))"

section \<open>Service 2: the queue consumer\<close>

subsection \<open>Formatting the key\<close>

text \<open>The decimal digit of a number below ten.\<close>

definition digit_char :: "nat \<Rightarrow> char" where
  "digit_char n = ''0123456789'' ! n"

text \<open>\<open>str(n)\<close> of a natural number, which is what \<open>{n}\<close> gives in an f-string.\<close>

fun str_nat :: "nat \<Rightarrow> string" where
  "str_nat n = (if n < 10 then [digit_char n] else str_nat (n div 10) @ [digit_char (n mod 10)])"

declare str_nat.simps [simp del]

text \<open>\<open>{n:02d}\<close>: the decimal digits, padded with zeros on the left to two characters.\<close>

definition fmt_02d :: "nat \<Rightarrow> string" where
  "fmt_02d n = replicate (2 - length (str_nat n)) CHR ''0'' @ str_nat n"

text \<open>The fields of \<open>datetime.utcnow()\<close> that the key uses.\<close>

record date =
  year :: nat
  month :: nat
  day :: nat

definition s3_key :: "date \<Rightarrow> string \<Rightarrow> string" where
  "s3_key now message_id =
     ''messages/'' @ str_nat (year now) @ ''/'' @ fmt_02d (month now) @ ''/'' @ fmt_02d (day now)
       @ ''/'' @ message_id @ ''.json''"

subsection \<open>The consumer\<close>

text \<open>A queue message is a dict of strings with the keys ReceiptHandle, MessageId, Body.\<close>

type_synonym message = "(string \<times> string) list"

text \<open>
  What the consumer does to the outside, in order: it reads the clock, puts an object
  (key, body, the exception raised if any), deletes a message (receipt handle, the
  exception raised if any) and receives a batch.
\<close>

datatype event =
    UtcNow date
  | S3Put string string "exn option"
  | SqsDelete string "exn option"
  | SqsReceive "exn + message list"

text \<open>
  The outside of service 2. Each answer depends on the number of events so far and on the
  arguments of the call: \<open>utcnow\<close> is \<open>datetime.utcnow()\<close>, \<open>s3_put_object\<close> the exception
  of \<open>s3_client.put_object\<close> (\<open>None\<close> when it returns), \<open>sqs_delete_message\<close> the exception
  of \<open>sqs_client.delete_message\<close>, \<open>sqs_receive_message\<close> the exception of
  \<open>sqs_client.receive_message\<close> or \<open>response.get('Messages', [])\<close>. \<open>json_loads\<close> is
  \<open>json.loads\<close> (\<open>None\<close> for \<open>JSONDecodeError\<close>) and \<open>json_dumps_indent\<close> is
  \<open>json.dumps(_, indent=2)\<close>.
\<close>

record consumer_env =
  json_loads :: "string \<Rightarrow> json option"
  json_dumps_indent :: "json \<Rightarrow> string"
  utcnow :: "nat \<Rightarrow> date"
  s3_put_object :: "nat \<Rightarrow> string \<Rightarrow> string \<Rightarrow> exn option"
  sqs_delete_message :: "nat \<Rightarrow> string \<Rightarrow> exn option"
  sqs_receive_message :: "nat \<Rightarrow> exn + message list"

text \<open>
  The bucket (a put that returns stores the body under the key) and the events so far,
  oldest first.
\<close>

record consumer_state =
  s3_objects :: "string \<rightharpoonup> string"
  trace :: "event list"

text \<open>Only \<open>ClientError\<close> is caught; any other exception of \<open>put_object\<close> goes up.\<close>

definition upload_to_s3 ::
  "consumer_env \<Rightarrow> json \<Rightarrow> string \<Rightarrow> consumer_state \<Rightarrow> (exn + bool) \<times> consumer_state" where
  "upload_to_s3 env message_data message_id s =
     (let now = utcnow env (length (trace s));
          s1 = s\<lparr>trace := trace s @ [UtcNow now]\<rparr>;
          key = s3_key now message_id;
          body = json_dumps_indent env message_data;
          raised = s3_put_object env (length (trace s1)) key body;
          s2 = s1\<lparr>trace := trace s1 @ [S3Put key body raised]\<rparr>
      in case raised of
           None \<Rightarrow> (Inr True, s2\<lparr>s3_objects := (s3_objects s2)(key \<mapsto> body)\<rparr>)
         | Some (ClientError msg) \<Rightarrow> (Inr False, s2)
         | Some e \<Rightarrow> (Inl e, s2))"

text \<open>
  The outer \<open>except Exception\<close> turns a missing key of the message, an exception that
  leaves \<open>upload_to_s3\<close> and an exception of \<open>delete_message\<close> into \<open>False\<close>.
\<close>

definition consumer_process_message ::
  "consumer_env \<Rightarrow> message \<Rightarrow> consumer_state \<Rightarrow> bool \<times> consumer_state" where
  "consumer_process_message env message s =
     (case map_of message ''ReceiptHandle'' of
        None \<Rightarrow> (False, s)
      | Some receipt_handle \<Rightarrow>
     (case map_of message ''MessageId'' of
        None \<Rightarrow> (False, s)
      | Some message_id \<Rightarrow>
     (case map_of message ''Body'' of
        None \<Rightarrow> (False, s)
      | Some body \<Rightarrow>
     (case json_loads env body of
        None \<Rightarrow> (False, s)
      | Some message_data \<Rightarrow>
     (case upload_to_s3 env message_data message_id s of
        (Inl e, s1) \<Rightarrow> (False, s1)
      | (Inr False, s1) \<Rightarrow> (False, s1)
      | (Inr True, s1) \<Rightarrow>
          (let raised = sqs_delete_message env (length (trace s1)) receipt_handle;
               s2 = s1\<lparr>trace := trace s1 @ [SqsDelete receipt_handle raised]\<rparr>
           in case raised of None \<Rightarrow> (True, s2) | Some e \<Rightarrow> (False, s2)))))))"

text \<open>The \<open>for\<close> loop of \<open>poll_sqs\<close> with its counter \<open>successful\<close>.\<close>

fun process_messages ::
  "consumer_env \<Rightarrow> message list \<Rightarrow> nat \<Rightarrow> consumer_state \<Rightarrow> nat \<times> consumer_state" where
  "process_messages env [] successful s = (successful, s)"
| "process_messages env (message # messages) successful s =
     (case consumer_process_message env message s of
        (ok, s') \<Rightarrow> process_messages env messages (if ok then successful + 1 else successful) s')"

text \<open>A \<open>ClientError\<close> of \<open>receive_message\<close> gives 0; any other exception goes up.\<close>

definition poll_sqs :: "consumer_env \<Rightarrow> consumer_state \<Rightarrow> (exn + nat) \<times> consumer_state" where
  "poll_sqs env s =
     (let response = sqs_receive_message env (length (trace s));
          s0 = s\<lparr>trace := trace s @ [SqsReceive response]\<rparr>
      in case response of
           Inl (ClientError msg) \<Rightarrow> (Inr 0, s0)
         | Inl e \<Rightarrow> (Inl e, s0)
         | Inr messages \<Rightarrow>
             if messages = [] then (Inr 0, s0)
             else (case process_messages env messages 0 s0 of (successful, s') \<Rightarrow> (Inr successful, s')))"

section \<open>Sample requests and environments\<close>

definition sample_data :: json where
  "sample_data = JObj [(''email_subject'', JStr ''S''), (''email_sender'', JStr ''a@b.com''),
     (''email_timestream'', JStr ''2024-01-01T00:00:00Z''), (''email_content'', JStr ''C'')]"

definition sample_payload :: "string \<Rightarrow> json" where
  "sample_payload token = JObj [(''data'', sample_data), (''token'', JStr token)]"

definition sample_request :: "json \<Rightarrow> request" where
  "sample_request payload = \<lparr>is_json = True, get_json = Some payload\<rparr>"

text \<open>The secret is \<open>T\<close>, the queue accepts every message and names it \<open>id-1\<close>.\<close>

definition sample_api_env :: api_env where
  "sample_api_env = \<lparr>ssm_get_parameter = (\<lambda>n. Inr ''T''),
      sqs_send_message = (\<lambda>n body. Inr ''id-1''),
      json_dumps = (\<lambda>v. ''{}'')\<rparr>"

text \<open>The process at its start: nothing cached, nothing called.\<close>

definition initial_api_state :: api_state where
  "initial_api_state = \<lparr>api_token_cache = None, ssm_calls = 0, sqs_sends = []\<rparr>"

text \<open>The same, with a queue that rejects every message.\<close>

definition failing_queue_env :: api_env where
  "failing_queue_env = sample_api_env\<lparr>sqs_send_message := (\<lambda>n body. Inl (ClientError ''boom''))\<rparr>"

text \<open>The same, with a parameter store that raises on every call.\<close>

definition failing_ssm_env :: api_env where
  "failing_ssm_env = sample_api_env\<lparr>ssm_get_parameter := (\<lambda>n. Inl (ClientError ''denied''))\<rparr>"

text \<open>The same, with a parameter store that raises on its first call only.\<close>

definition flaky_ssm_env :: api_env where
  "flaky_ssm_env = sample_api_env\<lparr>ssm_get_parameter :=
     (\<lambda>n. if n = 0 then Inl (ClientError ''throttled'') else Inr ''T'')\<rparr>"

text \<open>The state of the process after \<open>n\<close> calls of \<open>get_api_token\<close> in a row.\<close>

fun get_api_token_calls :: "api_env \<Rightarrow> nat \<Rightarrow> api_state \<Rightarrow> api_state" where
  "get_api_token_calls env 0 s = s"
| "get_api_token_calls env (Suc n) s = snd (get_api_token env (get_api_token_calls env n s))"

text \<open>
  The outcome of each message of a batch, in turn: every message is given to
  \<open>process_message\<close>, in the state the messages before it have left.
\<close>

fun batch_outcomes :: "consumer_env \<Rightarrow> message list \<Rightarrow> consumer_state \<Rightarrow> bool list" where
  "batch_outcomes env [] s = []"
| "batch_outcomes env (message # messages) s =
     (case consumer_process_message env message s of
        (ok, s') \<Rightarrow> ok # batch_outcomes env messages s')"

definition sample_date :: date where
  "sample_date = \<lparr>year = 2024, month = 1, day = 1\<rparr>"

definition good_message :: message where
  "good_message = [(''MessageId'', ''m1''), (''ReceiptHandle'', ''r1''), (''Body'', ''[1, 2]'')]"

definition bad_message :: message where
  "bad_message = [(''MessageId'', ''m0''), (''ReceiptHandle'', ''r0''), (''Body'', ''not valid json'')]"

text \<open>
  A consumer's outside on 1 January 2024: the bucket and the queue accept every call, the
  queue hands out a malformed message and a good one, and the JSON functions are
  tabulated on the values used (line breaks of the indented form written as spaces).
\<close>

definition sample_consumer_env :: consumer_env where
  "sample_consumer_env =
     \<lparr>json_loads = (\<lambda>body. if body = ''[1, 2]'' then Some (JArr [JInt 1, JInt 2]) else None),
      json_dumps_indent = (\<lambda>v. if v = JArr [JInt 1, JInt 2] then ''[ 1, 2 ]'' else ''null''),
      utcnow = (\<lambda>n. sample_date),
      s3_put_object = (\<lambda>n key body. None),
      sqs_delete_message = (\<lambda>n receipt_handle. None),
      sqs_receive_message = (\<lambda>n. Inr [bad_message, good_message])\<rparr>"

text \<open>The same, with a bucket that rejects every put.\<close>

definition failing_bucket_env :: consumer_env where
  "failing_bucket_env =
     sample_consumer_env\<lparr>s3_put_object := (\<lambda>n key body. Some (ClientError ''NoSuchBucket''))\<rparr>"

definition initial_consumer_state :: consumer_state where
  "initial_consumer_state = \<lparr>s3_objects = Map.empty, trace = []\<rparr>"

section \<open>Properties of service 1\<close>

text \<open>
  C10: there is a JSON payload with 'data' and 'token' present whose 'data' is not a
  container (a number) on which \<open>validate_payload\<close> raises \<open>TypeError\<close> from the
  membership test instead of returning a validation failure, so the handler of
  \<open>POST /api/message\<close> raises too and gives no 400 response.
\<close>

theorem validate_payload_non_container_raises:
  "validate_payload (JObj [(''data'', JInt n), (''token'', tok)]) = Inl TypeError
   \<and> api_process_message env
        \<lparr>is_json = True, get_json = Some (JObj [(''data'', JInt n), (''token'', tok)])\<rparr> s
       = (Inl TypeError, s)"
  by (simp add: validate_payload_def api_process_message_def required_fields_def)

subsection \<open>Helper lemmas\<close>

lemma validate_payload_ok_shape:
  assumes "validate_payload payload = Inr (True, msg)"
  shows "\<exists>kvs data token. payload = JObj kvs \<and> map_of kvs ''data'' = Some data
           \<and> map_of kvs ''token'' = Some token"
proof (cases payload)
  case (JObj kvs)
  from assms JObj have d: "''data'' \<in> fst ` set kvs" and t: "''token'' \<in> fst ` set kvs"
    by (auto simp: validate_payload_def split: if_splits)
  from d obtain data where "map_of kvs ''data'' = Some data"
    by (metis domD dom_map_of_conv_image_fst)
  moreover from t obtain token where "map_of kvs ''token'' = Some token"
    by (metis domD dom_map_of_conv_image_fst)
  ultimately show ?thesis using JObj by blast
next
  case (JArr xs)
  with assms show ?thesis by (auto simp: validate_payload_def split: if_splits)
next
  case (JStr x)
  with assms show ?thesis by (auto simp: validate_payload_def split: if_splits)
qed (use assms in \<open>auto simp: validate_payload_def\<close>)

lemma missing_fields_dict:
  "missing_fields fs (JObj d) = Inr (filter (\<lambda>f. f \<notin> set (map fst d)) fs)"
  by (induction fs) simp_all

lemma get_api_token_sqs_sends: "sqs_sends (snd (get_api_token env s)) = sqs_sends s"
  by (auto simp: get_api_token_def split: sum.splits option.splits bool.splits)

lemma validate_token_sqs_sends: "sqs_sends (snd (validate_token env tok s)) = sqs_sends s"
  using get_api_token_sqs_sends [of env s]
  by (auto simp: validate_token_def split: prod.splits sum.splits)

subsection \<open>Payload validation\<close>

text \<open>
  C2: on an envelope (a dict) the checks run in order and the first failure wins: an
  absent 'data' is reported whatever else is missing, then an absent 'token'; and when
  both are present and 'data' is a dict that lacks some of the four required fields,
  \<open>validate_payload\<close> fails with a reason that lists exactly the missing names, joined
  by a comma and a space, in the order email_subject, email_sender, email_timestream,
  email_content.
\<close>

theorem validate_payload_names_missing_fields:
  "(''data'' \<notin> set (map fst kvs) \<longrightarrow>
      validate_payload (JObj kvs) = Inr (False, Some ''Missing 'data' field''))
   \<and> (''data'' \<in> set (map fst kvs) \<and> ''token'' \<notin> set (map fst kvs) \<longrightarrow>
      validate_payload (JObj kvs) = Inr (False, Some ''Missing 'token' field''))
   \<and> (map_of kvs ''data'' = Some (JObj d) \<and> ''token'' \<in> set (map fst kvs)
       \<and> missing = filter (\<lambda>f. f \<notin> set (map fst d))
            [''email_subject'', ''email_sender'', ''email_timestream'', ''email_content'']
       \<and> missing \<noteq> [] \<longrightarrow>
      validate_payload (JObj kvs)
        = Inr (False, Some (''Missing required fields in data: '' @ join '', '' missing)))"
proof (intro conjI impI)
  assume "''data'' \<notin> set (map fst kvs)"
  then show "validate_payload (JObj kvs) = Inr (False, Some ''Missing 'data' field'')"
    by (simp add: validate_payload_def)
next
  assume "''data'' \<in> set (map fst kvs) \<and> ''token'' \<notin> set (map fst kvs)"
  then show "validate_payload (JObj kvs) = Inr (False, Some ''Missing 'token' field'')"
    by (simp add: validate_payload_def)
next
  assume a: "map_of kvs ''data'' = Some (JObj d) \<and> ''token'' \<in> set (map fst kvs)
       \<and> missing = filter (\<lambda>f. f \<notin> set (map fst d))
            [''email_subject'', ''email_sender'', ''email_timestream'', ''email_content'']
       \<and> missing \<noteq> []"
  then have d: "map_of kvs ''data'' = Some (JObj d)"
    and t: "''token'' \<in> set (map fst kvs)"
    and m: "missing = filter (\<lambda>f. f \<notin> set (map fst d))
            [''email_subject'', ''email_sender'', ''email_timestream'', ''email_content'']"
    and ne: "missing \<noteq> []"
    by blast+
  from d have hd: "''data'' \<in> set (map fst kvs)"
    by (metis domI dom_map_of_conv_image_fst set_map)
  have mf: "missing_fields required_fields (JObj d) = Inr missing"
    unfolding m required_fields_def by (rule missing_fields_dict)
  show "validate_payload (JObj kvs)
        = Inr (False, Some (''Missing required fields in data: '' @ join '', '' missing))"
    using hd t d mf ne by (simp add: validate_payload_def)
qed

theorem validate_payload_names_missing_fields_witness:
  "validate_payload (JObj [(''token'', JStr ''t'')]) = Inr (False, Some ''Missing 'data' field'')
   \<and> validate_payload (JObj [(''data'', JObj [])]) = Inr (False, Some ''Missing 'token' field'')
   \<and> validate_payload (JObj [(''data'', JObj [(''email_sender'', JStr ''a@b.com'')]), (''token'', JStr ''t'')])
       = Inr (False, Some ''Missing required fields in data: email_subject, email_timestream, email_content'')"
  using validate_payload_names_missing_fields [of "[(''token'', JStr ''t'')]" "[]" "[]"]
    validate_payload_names_missing_fields [of "[(''data'', JObj [])]" "[]" "[]"]
    validate_payload_names_missing_fields
      [of "[(''data'', JObj [(''email_sender'', JStr ''a@b.com'')]), (''token'', JStr ''t'')]"
          "[(''email_sender'', JStr ''a@b.com'')]"
          "[''email_subject'', ''email_timestream'', ''email_content'']"]
  by simp

lemma get_api_token_cached:
  "truthy (api_token_cache s) \<Longrightarrow> get_api_token env s = (Inr (the (api_token_cache s)), s)"
  by (cases "api_token_cache s") (simp_all add: get_api_token_def)

lemma get_api_token_fetch:
  "\<not> truthy (api_token_cache s) \<Longrightarrow>
   get_api_token env s =
     (case ssm_get_parameter env (ssm_calls s) of
        Inr v \<Rightarrow> (Inr v, s\<lparr>api_token_cache := Some v, ssm_calls := Suc (ssm_calls s)\<rparr>)
      | Inl e \<Rightarrow> (Inl e, s\<lparr>ssm_calls := Suc (ssm_calls s)\<rparr>))"
  by (cases "api_token_cache s") (simp_all add: get_api_token_def)

lemma get_api_token_value_cached:
  assumes "fst (get_api_token env s) = Inr v" and "v \<noteq> []"
  shows "api_token_cache (snd (get_api_token env s)) = Some v"
proof (cases "truthy (api_token_cache s)")
  case True
  then obtain c where c: "api_token_cache s = Some c" by (cases "api_token_cache s") auto
  with True assms show ?thesis by (simp add: get_api_token_cached)
next
  case False
  with assms show ?thesis
    by (auto simp: get_api_token_fetch split: sum.splits)
qed

lemma get_api_token_calls_cached:
  "truthy (api_token_cache s) \<Longrightarrow> get_api_token_calls env n s = s"
  by (induction n) (simp_all add: get_api_token_cached)

lemma handler_after_validation:
  assumes "is_json req" and "get_json req = Some payload"
    and "validate_payload payload = Inr (True, None)"
    and "py_getitem payload ''token'' = Inr token"
  shows "api_process_message env req s =
     (case validate_token env token s of
        ((is_valid, error_msg), s1) \<Rightarrow>
          if \<not> is_valid then (Inr (error_body error_msg, 401), s1)
          else
            (case py_getitem payload ''data'' of
               Inl e \<Rightarrow> (Inl e, s1)
             | Inr data \<Rightarrow>
                 (case send_to_sqs env data s1 of
                    (Inl e, s2) \<Rightarrow> (Inl e, s2)
                  | (Inr (success, result), s2) \<Rightarrow>
                      if \<not> success
                      then (Inr (error_body (Some (''Failed to send message: '' @ result)), 500), s2)
                      else (Inr (JObj [(''status'', JStr ''success''),
                                       (''message'', JStr ''Message sent to queue''),
                                       (''message_id'', JStr result)], 200), s2))))"
  using assms by (simp add: api_process_message_def)

lemma validate_payload_ok_token:
  assumes "validate_payload payload = Inr (True, msg)"
  shows "\<exists>token. py_getitem payload ''token'' = Inr token"
  using validate_payload_ok_shape [OF assms] by auto

subsection \<open>Token validation\<close>

text \<open>
  C1 (as amended): a request with a JSON body whose payload passes validation and whose
  token is not equal to the secret the service holds gets status 401; a payload that
  fails validation gets 400 with the validator's reason, whatever its token, and neither
  the secret nor the queue is touched.
\<close>

theorem token_mismatch_after_validation_gives_401:
  assumes "is_json req" and "get_json req = Some payload"
  shows "(validate_payload payload = Inr (True, None)
          \<and> fst (get_api_token env s) = Inr secret
          \<and> py_getitem payload ''token'' \<noteq> Inr (JStr secret) \<longrightarrow>
            (\<exists>body. fst (api_process_message env req s) = Inr (body, 401)))
       \<and> (validate_payload payload = Inr (False, reason) \<longrightarrow>
            api_process_message env req s = (Inr (error_body reason, 400), s))"
proof (intro conjI impI)
  assume a: "validate_payload payload = Inr (True, None)
          \<and> fst (get_api_token env s) = Inr secret
          \<and> py_getitem payload ''token'' \<noteq> Inr (JStr secret)"
  then obtain token where tok: "py_getitem payload ''token'' = Inr token"
    using validate_payload_ok_token by blast
  with a have ne: "token \<noteq> JStr secret" by simp
  obtain r s' where g: "get_api_token env s = (r, s')" by (cases "get_api_token env s")
  with a have r: "r = Inr secret" by simp
  have "validate_token env token s = ((False, Some ''Invalid ???token''), s')"
    using g r ne by (simp add: validate_token_def)
  then have "fst (api_process_message env req s) = Inr (error_body (Some ''Invalid ???token''), 401)"
    using assms a tok by (simp add: handler_after_validation)
  then show "\<exists>body. fst (api_process_message env req s) = Inr (body, 401)" by blast
next
  assume "validate_payload payload = Inr (False, reason)"
  with assms show "api_process_message env req s = (Inr (error_body reason, 400), s)"
    by (simp add: api_process_message_def)
qed

theorem token_mismatch_after_validation_gives_401_witness:
  "(\<exists>body. fst (api_process_message sample_api_env (sample_request (sample_payload ''wrong''))
               initial_api_state) = Inr (body, 401))
   \<and> api_process_message sample_api_env (sample_request (JObj [(''token'', JStr ''wrong'')]))
        initial_api_state
      = (Inr (error_body (Some ''Missing 'data' field''), 400), initial_api_state)"
proof -
  have v: "validate_payload (sample_payload ''wrong'') = Inr (True, None)"
    by (simp add: sample_payload_def sample_data_def validate_payload_def required_fields_def)
  have g: "fst (get_api_token sample_api_env initial_api_state) = Inr ''T''"
    by (simp add: get_api_token_def sample_api_env_def initial_api_state_def)
  have t: "py_getitem (sample_payload ''wrong'') ''token'' \<noteq> Inr (JStr ''T'')"
    by (simp add: sample_payload_def)
  have f: "validate_payload (JObj [(''token'', JStr ''wrong'')])
             = Inr (False, Some ''Missing 'data' field'')"
    by (simp add: validate_payload_def)
  show ?thesis
    using token_mismatch_after_validation_gives_401
            [of "sample_request (sample_payload ''wrong'')" "sample_payload ''wrong''"
                sample_api_env initial_api_state "''T''"]
          token_mismatch_after_validation_gives_401
            [of "sample_request (JObj [(''token'', JStr ''wrong'')])"
                "JObj [(''token'', JStr ''wrong'')]" sample_api_env initial_api_state
                "''T''" "Some ''Missing 'data' field''"]
          v g t f
    by (simp add: sample_request_def)
qed

text \<open>
  C1 as stated fails: with the secret \<open>T\<close>, a request whose token is \<open>wrong\<close> and whose
  envelope has no 'data' gets 400, not 401.
\<close>

theorem invalid_payload_wrong_token_gets_400:
  "ssm_get_parameter sample_api_env 0 = Inr ''T''
   \<and> JStr ''wrong'' \<noteq> JStr ''T''
   \<and> fst (api_process_message sample_api_env
        (sample_request (JObj [(''token'', JStr ''wrong'')])) initial_api_state)
      = Inr (JObj [(''error'', JStr ''Missing 'data' field'')], 400)"
  by (simp add: sample_request_def sample_api_env_def initial_api_state_def
        api_process_message_def validate_payload_def error_body_def)

text \<open>
  C4: the code at a valid payload whose token differs from the fetched secret: the status
  is 401 and the error text is \<open>Invalid ???token\<close>.
\<close>

theorem token_mismatch_error_text:
  "fst (api_process_message sample_api_env (sample_request (sample_payload ''wrong''))
          initial_api_state)
     = Inr (JObj [(''error'', JStr ''Invalid ???token'')], 401)"
  by (simp add: sample_request_def sample_payload_def sample_data_def sample_api_env_def
        initial_api_state_def api_process_message_def validate_payload_def required_fields_def
        validate_token_def get_api_token_def error_body_def)

text \<open>
  C7: when the payload passes validation, nothing usable is cached and the parameter
  store raises, the response is 401 with the fixed text \<open>Token validation failed\<close>,
  which does not depend on the exception, and nothing is sent to the queue.
\<close>

theorem secret_fetch_failure_gives_generic_401:
  assumes "is_json req" and "get_json req = Some payload"
    and "validate_payload payload = Inr (True, None)"
    and "\<not> truthy (api_token_cache s)"
    and "ssm_get_parameter env (ssm_calls s) = Inl e"
  shows "fst (api_process_message env req s)
           = Inr (JObj [(''error'', JStr ''Token validation failed'')], 401)
         \<and> sqs_sends (snd (api_process_message env req s)) = sqs_sends s"
proof -
  obtain token where tok: "py_getitem payload ''token'' = Inr token"
    using validate_payload_ok_token [OF assms(3)] by blast
  have "get_api_token env s = (Inl e, s\<lparr>ssm_calls := Suc (ssm_calls s)\<rparr>)"
    using assms(4,5) by (simp add: get_api_token_fetch)
  then have "validate_token env token s
               = ((False, Some ''Token validation failed''), s\<lparr>ssm_calls := Suc (ssm_calls s)\<rparr>)"
    by (simp add: validate_token_def)
  then show ?thesis
    using assms(1-3) tok by (simp add: handler_after_validation error_body_def)
qed

theorem secret_fetch_failure_gives_generic_401_witness:
  "fst (api_process_message failing_ssm_env (sample_request (sample_payload ''T''))
          initial_api_state)
     = Inr (JObj [(''error'', JStr ''Token validation failed'')], 401)
   \<and> sqs_sends (snd (api_process_message failing_ssm_env (sample_request (sample_payload ''T''))
          initial_api_state)) = []"
proof -
  have v: "validate_payload (sample_payload ''T'') = Inr (True, None)"
    by (simp add: sample_payload_def sample_data_def validate_payload_def required_fields_def)
  have c: "\<not> truthy (api_token_cache initial_api_state)"
    by (simp add: initial_api_state_def)
  have f: "ssm_get_parameter failing_ssm_env (ssm_calls initial_api_state)
             = Inl (ClientError ''denied'')"
    by (simp add: failing_ssm_env_def)
  have j: "is_json (sample_request (sample_payload ''T''))"
    and p: "get_json (sample_request (sample_payload ''T'')) = Some (sample_payload ''T'')"
    by (simp_all add: sample_request_def)
  show ?thesis
    using secret_fetch_failure_gives_generic_401 [OF j p v c f]
    by (simp add: initial_api_state_def)
qed

subsection \<open>Enqueueing\<close>

text \<open>
  C5 (as amended): for a valid envelope that carries the secret the service holds, when
  the queue accepts the message, the handler calls \<open>send_message\<close> exactly once, with
  the JSON-encoded 'data', and returns 200 with the status, the text
  \<open>Message sent to queue\<close> and the id the queue gave.
\<close>

theorem valid_request_enqueues_once:
  assumes "is_json req" and "get_json req = Some payload"
    and "validate_payload payload = Inr (True, None)"
    and "fst (get_api_token env s) = Inr secret"
    and "py_getitem payload ''token'' = Inr (JStr secret)"
    and "py_getitem payload ''data'' = Inr data"
    and "sqs_send_message env (length (sqs_sends s)) (json_dumps env data) = Inr message_id"
  shows "fst (api_process_message env req s)
           = Inr (JObj [(''status'', JStr ''success''),
                        (''message'', JStr ''Message sent to queue''),
                        (''message_id'', JStr message_id)], 200)
         \<and> sqs_sends (snd (api_process_message env req s)) = sqs_sends s @ [json_dumps env data]"
proof -
  obtain r s1 where g: "get_api_token env s = (r, s1)" by (cases "get_api_token env s")
  with assms(4) have r: "r = Inr secret" by simp
  have q: "sqs_sends s1 = sqs_sends s"
    using get_api_token_sqs_sends [of env s] g by simp
  have vt: "validate_token env (JStr secret) s = ((True, None), s1)"
    using g r by (simp add: validate_token_def)
  have snd: "send_to_sqs env data s1
               = (Inr (True, message_id), s1\<lparr>sqs_sends := sqs_sends s1 @ [json_dumps env data]\<rparr>)"
    using assms(7) q by (simp add: send_to_sqs_def)
  show ?thesis
    using assms(1-3,5,6) vt snd q by (simp add: handler_after_validation)
qed

theorem valid_request_enqueues_once_witness:
  "fst (api_process_message sample_api_env (sample_request (sample_payload ''T''))
          initial_api_state)
     = Inr (JObj [(''status'', JStr ''success''),
                  (''message'', JStr ''Message sent to queue''),
                  (''message_id'', JStr ''id-1'')], 200)
   \<and> sqs_sends (snd (api_process_message sample_api_env (sample_request (sample_payload ''T''))
          initial_api_state)) = [''{}'']"
proof -
  have j: "is_json (sample_request (sample_payload ''T''))"
    and p: "get_json (sample_request (sample_payload ''T'')) = Some (sample_payload ''T'')"
    by (simp_all add: sample_request_def)
  have v: "validate_payload (sample_payload ''T'') = Inr (True, None)"
    by (simp add: sample_payload_def sample_data_def validate_payload_def required_fields_def)
  have g: "fst (get_api_token sample_api_env initial_api_state) = Inr ''T''"
    by (simp add: get_api_token_def sample_api_env_def initial_api_state_def)
  have t: "py_getitem (sample_payload ''T'') ''token'' = Inr (JStr ''T'')"
    and d: "py_getitem (sample_payload ''T'') ''data'' = Inr sample_data"
    by (simp_all add: sample_payload_def)
  have q: "sqs_send_message sample_api_env (length (sqs_sends initial_api_state))
             (json_dumps sample_api_env sample_data) = Inr ''id-1''"
    by (simp add: sample_api_env_def)
  show ?thesis
    using valid_request_enqueues_once [OF j p v g t d q]
    by (simp add: initial_api_state_def sample_api_env_def)
qed

text \<open>
  C5 as stated fails: a valid envelope with the right token gets 500 when the queue
  rejects the message.
\<close>

theorem valid_request_queue_failure_gets_500:
  "validate_payload (sample_payload ''T'') = Inr (True, None)
   \<and> fst (get_api_token failing_queue_env initial_api_state) = Inr ''T''
   \<and> py_getitem (sample_payload ''T'') ''token'' = Inr (JStr ''T'')
   \<and> fst (api_process_message failing_queue_env (sample_request (sample_payload ''T''))
            initial_api_state)
      = Inr (JObj [(''error'', JStr ''Failed to send message: boom'')], 500)"
  by (simp add: sample_request_def sample_payload_def sample_data_def sample_api_env_def
        failing_queue_env_def initial_api_state_def api_process_message_def
        validate_payload_def required_fields_def validate_token_def get_api_token_def
        send_to_sqs_def error_body_def)

subsection \<open>The token cache\<close>

lemma get_api_token_calls_invariant:
  "ssm_calls s \<le> ssm_calls (get_api_token_calls env n s)
   \<and> (\<forall>i. ssm_calls s \<le> i \<and> Suc i < ssm_calls (get_api_token_calls env n s) \<longrightarrow>
          \<not> (\<exists>v. ssm_get_parameter env i = Inr v \<and> v \<noteq> []))
   \<and> (\<not> truthy (api_token_cache (get_api_token_calls env n s)) \<longrightarrow>
        (\<forall>i. ssm_calls s \<le> i \<and> i < ssm_calls (get_api_token_calls env n s) \<longrightarrow>
          \<not> (\<exists>v. ssm_get_parameter env i = Inr v \<and> v \<noteq> [])))"
proof (induction n)
  case 0
  show ?case by auto
next
  case (Suc n)
  let ?t = "get_api_token_calls env n s"
  show ?case
  proof (cases "truthy (api_token_cache ?t)")
    case True
    then have "get_api_token_calls env (Suc n) s = ?t"
      by (simp add: get_api_token_cached)
    with Suc True show ?thesis by simp
  next
    case False
    with Suc have bad: "\<forall>i. ssm_calls s \<le> i \<and> i < ssm_calls ?t \<longrightarrow>
          \<not> (\<exists>v. ssm_get_parameter env i = Inr v \<and> v \<noteq> [])"
      and le: "ssm_calls s \<le> ssm_calls ?t"
      by blast+
    show ?thesis
    proof (cases "ssm_get_parameter env (ssm_calls ?t)")
      case (Inl e)
      with False have st: "get_api_token_calls env (Suc n) s = ?t\<lparr>ssm_calls := Suc (ssm_calls ?t)\<rparr>"
        by (simp add: get_api_token_fetch)
      show ?thesis unfolding st using bad le Inl
        by (auto simp: less_Suc_eq)
    next
      case (Inr v)
      with False have st: "get_api_token_calls env (Suc n) s
          = ?t\<lparr>api_token_cache := Some v, ssm_calls := Suc (ssm_calls ?t)\<rparr>"
        by (simp add: get_api_token_fetch)
      show ?thesis unfolding st using bad le Inr
        by (auto simp: less_Suc_eq)
    qed
  qed
qed

text \<open>
  C9 (as amended): over any run of calls of \<open>get_api_token\<close>, every fetch but the last
  one made has failed or returned the empty string, so at most one fetch succeeds with a
  non-empty value; and once a call has returned a non-empty value, every later call
  returns that value from the cache and changes nothing, so no fetch follows.
\<close>

theorem get_api_token_fetches_until_first_success:
  "(\<forall>i. ssm_calls s \<le> i \<and> Suc i < ssm_calls (get_api_token_calls env n s) \<longrightarrow>
        \<not> (\<exists>v. ssm_get_parameter env i = Inr v \<and> v \<noteq> []))
   \<and> (fst (get_api_token env s) = Inr v \<and> v \<noteq> [] \<longrightarrow>
        get_api_token_calls env n (snd (get_api_token env s)) = snd (get_api_token env s)
        \<and> get_api_token env (snd (get_api_token env s)) = (Inr v, snd (get_api_token env s)))"
proof (intro conjI impI)
  show "\<forall>i. ssm_calls s \<le> i \<and> Suc i < ssm_calls (get_api_token_calls env n s) \<longrightarrow>
        \<not> (\<exists>v. ssm_get_parameter env i = Inr v \<and> v \<noteq> [])"
    using get_api_token_calls_invariant [of s env n] by blast
next
  assume a: "fst (get_api_token env s) = Inr v \<and> v \<noteq> []"
  then have c: "api_token_cache (snd (get_api_token env s)) = Some v"
    by (simp add: get_api_token_value_cached)
  with a have t: "truthy (api_token_cache (snd (get_api_token env s)))" by simp
  then show "get_api_token_calls env n (snd (get_api_token env s)) = snd (get_api_token env s)"
    by (rule get_api_token_calls_cached)
  from t c show "get_api_token env (snd (get_api_token env s)) = (Inr v, snd (get_api_token env s))"
    by (simp add: get_api_token_cached)
qed

theorem get_api_token_fetches_until_first_success_witness:
  "ssm_calls (get_api_token_calls flaky_ssm_env (Suc (Suc (Suc 0))) initial_api_state) = 2
   \<and> \<not> (\<exists>v. ssm_get_parameter flaky_ssm_env 0 = Inr v \<and> v \<noteq> [])
   \<and> get_api_token_calls sample_api_env (Suc (Suc (Suc 0)))
        (snd (get_api_token sample_api_env initial_api_state))
      = \<lparr>api_token_cache = Some ''T'', ssm_calls = 1, sqs_sends = []\<rparr>
   \<and> fst (get_api_token sample_api_env (snd (get_api_token sample_api_env initial_api_state)))
      = Inr ''T''"
proof -
  have n: "ssm_calls (get_api_token_calls flaky_ssm_env (Suc (Suc (Suc 0))) initial_api_state) = 2"
    by (simp add: get_api_token_def flaky_ssm_env_def sample_api_env_def initial_api_state_def)
  have g: "get_api_token sample_api_env initial_api_state
             = (Inr ''T'', \<lparr>api_token_cache = Some ''T'', ssm_calls = 1, sqs_sends = []\<rparr>)"
    by (simp add: get_api_token_def sample_api_env_def initial_api_state_def)
  have z: "ssm_calls initial_api_state = 0" by (simp add: initial_api_state_def)
  show ?thesis
    using get_api_token_fetches_until_first_success
            [where s = initial_api_state and env = flaky_ssm_env and n = "Suc (Suc (Suc 0))"]
          get_api_token_fetches_until_first_success
            [where s = initial_api_state and env = sample_api_env and n = "Suc (Suc (Suc 0))"
               and v = "''T''"]
          n g z
    by auto
qed

text \<open>
  C9 as stated fails: when the parameter store raises, nothing is cached and each call
  fetches again; two calls make two fetches.
\<close>

theorem failed_fetch_is_repeated:
  "ssm_calls (get_api_token_calls failing_ssm_env (Suc (Suc 0)) initial_api_state) = 2"
  by (simp add: get_api_token_def failing_ssm_env_def sample_api_env_def initial_api_state_def)

section \<open>Properties of service 2\<close>

subsection \<open>Helper lemmas\<close>

lemma str_nat_one_digit: "n < 10 \<Longrightarrow> str_nat n = [digit_char n]"
  by (subst str_nat.simps) simp

lemma str_nat_two_digits:
  assumes "10 \<le> n" and "n < 100"
  shows "str_nat n = [digit_char (n div 10), digit_char (n mod 10)]"
proof -
  from assms have "n div 10 < 10" by simp
  then have "str_nat (n div 10) = [digit_char (n div 10)]" by (rule str_nat_one_digit)
  with assms show ?thesis by (subst str_nat.simps) simp
qed

lemma fmt_02d_two_chars:
  assumes "n < 100"
  shows "fmt_02d n = [digit_char (n div 10), digit_char (n mod 10)]"
proof (cases "n < 10")
  case True
  then show ?thesis
    by (simp add: fmt_02d_def str_nat_one_digit digit_char_def)
next
  case False
  with assms show ?thesis
    by (simp add: fmt_02d_def str_nat_two_digits)
qed

lemma upload_to_s3_success:
  assumes "upload_to_s3 env message_data message_id s = (Inr True, s1)"
  shows "s1 = \<lparr>s3_objects = (s3_objects s)
                 (s3_key (utcnow env (length (trace s))) message_id
                    \<mapsto> json_dumps_indent env message_data),
               trace = trace s @ [UtcNow (utcnow env (length (trace s))),
                 S3Put (s3_key (utcnow env (length (trace s))) message_id)
                   (json_dumps_indent env message_data) None]\<rparr>"
  using assms
  by (auto simp: upload_to_s3_def Let_def split: option.splits exn.splits)

lemma sample_key: "s3_key sample_date ''m1'' = ''messages/2024/01/01/m1.json''"
  by (simp add: s3_key_def sample_date_def fmt_02d_def str_nat.simps digit_char_def)

subsection \<open>The object key\<close>

text \<open>
  C6: on a calendar date an upload that succeeds puts the body under
  \<open>messages/{year}/{month:02}/{day:02}/{message_id}.json\<close>, month and day written with
  two digits; a second successful upload of the same message id on the same UTC day goes
  to the same key, so the bucket holds one object for it, with the later body.
\<close>

theorem same_id_same_day_overwrites:
  assumes "utcnow env (length (trace s)) = now"
    and "month now \<le> 12" and "day now \<le> 31"
    and "key = ''messages/'' @ str_nat (year now)
             @ ''/'' @ [digit_char (month now div 10), digit_char (month now mod 10)]
             @ ''/'' @ [digit_char (day now div 10), digit_char (day now mod 10)]
             @ ''/'' @ message_id @ ''.json''"
    and "upload_to_s3 env data1 message_id s = (Inr True, s1)"
    and "utcnow env (length (trace s1)) = now"
    and "upload_to_s3 env data2 message_id s1 = (Inr True, s2)"
  shows "trace s1 = trace s @ [UtcNow now, S3Put key (json_dumps_indent env data1) None]
       \<and> s3_objects s1 = (s3_objects s)(key \<mapsto> json_dumps_indent env data1)
       \<and> trace s2 = trace s1 @ [UtcNow now, S3Put key (json_dumps_indent env data2) None]
       \<and> s3_objects s2 = (s3_objects s)(key \<mapsto> json_dumps_indent env data2)"
proof -
  have k: "s3_key now message_id = key"
    using assms(2-4) by (simp add: s3_key_def fmt_02d_two_chars)
  have s1: "s1 = \<lparr>s3_objects = (s3_objects s)(key \<mapsto> json_dumps_indent env data1),
                  trace = trace s @ [UtcNow now, S3Put key (json_dumps_indent env data1) None]\<rparr>"
    using upload_to_s3_success [OF assms(5)] assms(1) k by simp
  have s2: "s2 = \<lparr>s3_objects = (s3_objects s1)(key \<mapsto> json_dumps_indent env data2),
                  trace = trace s1 @ [UtcNow now, S3Put key (json_dumps_indent env data2) None]\<rparr>"
    using upload_to_s3_success [OF assms(7)] assms(6) k by simp
  show ?thesis
    unfolding s2 unfolding s1 by simp
qed

theorem same_id_same_day_overwrites_witness:
  "s3_objects (snd (upload_to_s3 sample_consumer_env JNull ''m1''
       (snd (upload_to_s3 sample_consumer_env (JArr [JInt 1, JInt 2]) ''m1''
               initial_consumer_state))))
     = [''messages/2024/01/01/m1.json'' \<mapsto> ''null'']"
proof -
  let ?s1 = "snd (upload_to_s3 sample_consumer_env (JArr [JInt 1, JInt 2]) ''m1''
                    initial_consumer_state)"
  let ?s2 = "snd (upload_to_s3 sample_consumer_env JNull ''m1'' ?s1)"
  have u1: "upload_to_s3 sample_consumer_env (JArr [JInt 1, JInt 2]) ''m1'' initial_consumer_state
              = (Inr True, ?s1)"
    by (simp add: upload_to_s3_def Let_def sample_consumer_env_def)
  have u2: "upload_to_s3 sample_consumer_env JNull ''m1'' ?s1 = (Inr True, ?s2)"
    by (simp add: upload_to_s3_def Let_def sample_consumer_env_def)
  have n1: "utcnow sample_consumer_env (length (trace initial_consumer_state)) = sample_date"
    and n2: "utcnow sample_consumer_env (length (trace ?s1)) = sample_date"
    by (simp_all add: sample_consumer_env_def)
  have m: "month sample_date \<le> 12" and d: "day sample_date \<le> 31"
    by (simp_all add: sample_date_def)
  have k: "''messages/2024/01/01/m1.json'' = ''messages/'' @ str_nat (year sample_date)
             @ ''/'' @ [digit_char (month sample_date div 10), digit_char (month sample_date mod 10)]
             @ ''/'' @ [digit_char (day sample_date div 10), digit_char (day sample_date mod 10)]
             @ ''/'' @ ''m1'' @ ''.json''"
    by (simp add: sample_date_def str_nat.simps digit_char_def)
  show ?thesis
    using same_id_same_day_overwrites [OF n1 m d k u1 n2 u2]
    by (simp add: initial_consumer_state_def sample_consumer_env_def)
qed

subsection \<open>Persist, then delete\<close>

lemma consumer_process_message_parsed:
  assumes "map_of message ''ReceiptHandle'' = Some h"
    and "map_of message ''MessageId'' = Some message_id"
    and "map_of message ''Body'' = Some b"
    and "json_loads env b = Some message_data"
    and "now = utcnow env (length (trace s))"
    and "key = s3_key now message_id"
    and "body = json_dumps_indent env message_data"
  shows "consumer_process_message env message s =
     (case s3_put_object env (Suc (length (trace s))) key body of
        Some e \<Rightarrow> (False, s\<lparr>trace := trace s @ [UtcNow now, S3Put key body (Some e)]\<rparr>)
      | None \<Rightarrow>
          (sqs_delete_message env (Suc (Suc (length (trace s)))) h = None,
           s\<lparr>s3_objects := (s3_objects s)(key \<mapsto> body),
             trace := trace s @ [UtcNow now, S3Put key body None,
               SqsDelete h (sqs_delete_message env (Suc (Suc (length (trace s)))) h)]\<rparr>))"
  using assms
  by (simp add: consumer_process_message_def upload_to_s3_def Let_def
           split: option.splits exn.splits)

lemma consumer_process_message_shapes:
  assumes "consumer_process_message env message s = (ok, s')"
  shows "(\<not> ok \<and> s' = s)
       \<or> (\<exists>now key body e. \<not> ok
             \<and> s' = s\<lparr>trace := trace s @ [UtcNow now, S3Put key body (Some e)]\<rparr>)
       \<or> (\<exists>now key body h r message_id b message_data.
             map_of message ''ReceiptHandle'' = Some h \<and> ok = (r = None)
             \<and> map_of message ''MessageId'' = Some message_id
             \<and> map_of message ''Body'' = Some b \<and> json_loads env b = Some message_data
             \<and> now = utcnow env (length (trace s)) \<and> key = s3_key now message_id
             \<and> body = json_dumps_indent env message_data
             \<and> r = sqs_delete_message env (Suc (Suc (length (trace s)))) h
             \<and> s' = s\<lparr>s3_objects := (s3_objects s)(key \<mapsto> body),
                      trace := trace s @ [UtcNow now, S3Put key body None, SqsDelete h r]\<rparr>)"
proof (cases "\<exists>h message_id b message_data.
    map_of message ''ReceiptHandle'' = Some h \<and> map_of message ''MessageId'' = Some message_id
    \<and> map_of message ''Body'' = Some b \<and> json_loads env b = Some message_data")
  case False
  then have "consumer_process_message env message s = (False, s)"
    by (auto simp: consumer_process_message_def split: option.splits)
  with assms show ?thesis by simp
next
  case True
  then obtain h message_id b message_data where
    f: "map_of message ''ReceiptHandle'' = Some h" "map_of message ''MessageId'' = Some message_id"
       "map_of message ''Body'' = Some b" "json_loads env b = Some message_data"
    by blast
  define now where "now = utcnow env (length (trace s))"
  define key where "key = s3_key now message_id"
  define body where "body = json_dumps_indent env message_data"
  note run = consumer_process_message_parsed [OF f now_def key_def body_def]
  show ?thesis
  proof (cases "s3_put_object env (Suc (length (trace s))) key body")
    case (Some e)
    with run assms have "\<not> ok"
      and "s' = s\<lparr>trace := trace s @ [UtcNow now, S3Put key body (Some e)]\<rparr>"
      by simp_all
    then show ?thesis by blast
  next
    case None
    define r where "r = sqs_delete_message env (Suc (Suc (length (trace s)))) h"
    from None run assms have "ok = (r = None)"
      and "s' = s\<lparr>s3_objects := (s3_objects s)(key \<mapsto> body),
                 trace := trace s @ [UtcNow now, S3Put key body None, SqsDelete h r]\<rparr>"
      by (simp_all add: r_def)
    with f now_def key_def body_def r_def show ?thesis by blast
  qed
qed

lemma consumer_process_message_invalid_json:
  assumes "map_of message ''Body'' = Some body" and "json_loads env body = None"
  shows "consumer_process_message env message s = (False, s)"
  using assms by (simp add: consumer_process_message_def split: option.splits)

text \<open>
  C3: the events one call of \<open>process_message\<close> adds hold a delete only as the last of
  three, right after a put of that message that returned, with the message's receipt
  handle and with the object in the bucket; the call returns true only with a delete that
  returned. So when the body is not valid JSON nothing is called at all, and when the put
  raises the call ends there: both return false with no delete. The put before a delete
  is the put of this message: its key is made of the clock's date and the message's id,
  its body is the encoding of the parsed body; and a call that makes no delete leaves the
  bucket as it was.
\<close>

theorem delete_only_after_successful_put:
  assumes "consumer_process_message env message s = (ok, s')"
  shows "\<exists>new. trace s' = trace s @ new
       \<and> (\<forall>h r. SqsDelete h r \<in> set new \<longrightarrow>
             (\<exists>now key body. new = [UtcNow now, S3Put key body None, SqsDelete h r]
                \<and> map_of message ''ReceiptHandle'' = Some h
                \<and> s3_objects s' key = Some body))
       \<and> (ok \<longrightarrow> (\<exists>h. SqsDelete h None \<in> set new))
       \<and> (\<forall>key body e. S3Put key body (Some e) \<in> set new \<longrightarrow>
             \<not> ok \<and> (\<forall>h r. SqsDelete h r \<notin> set new))
       \<and> ((\<exists>body. map_of message ''Body'' = Some body \<and> json_loads env body = None) \<longrightarrow>
             \<not> ok \<and> new = [])
       \<and> (\<forall>h r. SqsDelete h r \<in> set new \<longrightarrow>
             (\<exists>message_id b message_data.
                map_of message ''MessageId'' = Some message_id
                \<and> map_of message ''Body'' = Some b \<and> json_loads env b = Some message_data
                \<and> new = [UtcNow (utcnow env (length (trace s))),
                          S3Put (s3_key (utcnow env (length (trace s))) message_id)
                            (json_dumps_indent env message_data) None,
                          SqsDelete h r]
                \<and> s3_objects s' = (s3_objects s)
                     (s3_key (utcnow env (length (trace s))) message_id
                        \<mapsto> json_dumps_indent env message_data)))
       \<and> ((\<forall>h r. SqsDelete h r \<notin> set new) \<longrightarrow> s3_objects s' = s3_objects s)"
proof -
  have inv: "(\<exists>body. map_of message ''Body'' = Some body \<and> json_loads env body = None) \<longrightarrow>
               \<not> ok \<and> trace s' = trace s"
    using assms consumer_process_message_invalid_json [of message _ env s] by auto
  from consumer_process_message_shapes [OF assms]
  consider (quiet) "\<not> ok" "s' = s"
    | (put_failed) now key body e where "\<not> ok"
        "s' = s\<lparr>trace := trace s @ [UtcNow now, S3Put key body (Some e)]\<rparr>"
    | (deleted) now key body h r message_id b message_data where
        "map_of message ''ReceiptHandle'' = Some h" "ok = (r = None)"
        "map_of message ''MessageId'' = Some message_id"
        "map_of message ''Body'' = Some b" "json_loads env b = Some message_data"
        "now = utcnow env (length (trace s))" "key = s3_key now message_id"
        "body = json_dumps_indent env message_data"
        "s' = s\<lparr>s3_objects := (s3_objects s)(key \<mapsto> body),
               trace := trace s @ [UtcNow now, S3Put key body None, SqsDelete h r]\<rparr>"
    by blast
  then show ?thesis
  proof cases
    case quiet
    then show ?thesis by (intro exI [of _ "[]"]) simp
  next
    case put_failed
    with inv show ?thesis
      by (intro exI [of _ "[UtcNow now, S3Put key body (Some e)]"]) auto
  next
    case deleted
    with inv show ?thesis
      by (intro exI [of _ "[UtcNow now, S3Put key body None, SqsDelete h r]"]) auto
  qed
qed

theorem delete_only_after_successful_put_witness:
  "consumer_process_message sample_consumer_env good_message initial_consumer_state
     = (True, \<lparr>s3_objects = [''messages/2024/01/01/m1.json'' \<mapsto> ''[ 1, 2 ]''],
          trace = [UtcNow sample_date, S3Put ''messages/2024/01/01/m1.json'' ''[ 1, 2 ]'' None,
                   SqsDelete ''r1'' None]\<rparr>)
   \<and> consumer_process_message failing_bucket_env good_message initial_consumer_state
     = (False, \<lparr>s3_objects = Map.empty,
          trace = [UtcNow sample_date,
                   S3Put ''messages/2024/01/01/m1.json'' ''[ 1, 2 ]''
                     (Some (ClientError ''NoSuchBucket''))]\<rparr>)
   \<and> consumer_process_message sample_consumer_env bad_message initial_consumer_state
     = (False, initial_consumer_state)"
proof -
  have a: "consumer_process_message sample_consumer_env good_message initial_consumer_state
     = (True, \<lparr>s3_objects = [''messages/2024/01/01/m1.json'' \<mapsto> ''[ 1, 2 ]''],
          trace = [UtcNow sample_date, S3Put ''messages/2024/01/01/m1.json'' ''[ 1, 2 ]'' None,
                   SqsDelete ''r1'' None]\<rparr>)"
    by (simp add: Let_def consumer_process_message_def upload_to_s3_def sample_key
          good_message_def sample_consumer_env_def initial_consumer_state_def)
  have b: "consumer_process_message failing_bucket_env good_message initial_consumer_state
     = (False, \<lparr>s3_objects = Map.empty,
          trace = [UtcNow sample_date,
                   S3Put ''messages/2024/01/01/m1.json'' ''[ 1, 2 ]''
                     (Some (ClientError ''NoSuchBucket''))]\<rparr>)"
    by (simp add: Let_def consumer_process_message_def upload_to_s3_def sample_key
          good_message_def sample_consumer_env_def failing_bucket_env_def
          initial_consumer_state_def)
  have c: "consumer_process_message sample_consumer_env bad_message initial_consumer_state
     = (False, initial_consumer_state)"
    by (simp add: consumer_process_message_def bad_message_def sample_consumer_env_def)
  show ?thesis
    using delete_only_after_successful_put [OF a] delete_only_after_successful_put [OF b]
      delete_only_after_successful_put [OF c] a b c
    by simp
qed

subsection \<open>The poll cycle\<close>

lemma process_messages_count:
  "fst (process_messages env messages successful s)
     = successful + length (filter id (batch_outcomes env messages s))"
  by (induction messages arbitrary: successful s) (auto split: prod.splits)

lemma process_messages_state:
  "snd (process_messages env messages successful s) = snd (process_messages env messages 0 s)"
proof (induction messages arbitrary: successful s)
  case Nil
  show ?case by simp
next
  case (Cons message messages)
  obtain ok s' where p: "consumer_process_message env message s = (ok, s')"
    by (cases "consumer_process_message env message s")
  show ?case
    using p Cons.IH [of "if ok then successful + 1 else successful" s']
      Cons.IH [of "if ok then 0 + 1 else 0" s']
    by simp
qed

lemma length_batch_outcomes: "length (batch_outcomes env messages s) = length messages"
  by (induction messages arbitrary: s) (auto split: prod.splits)

lemma batch_outcomes_nth:
  "i < length messages \<Longrightarrow>
   batch_outcomes env messages s ! i
     = fst (consumer_process_message env (messages ! i)
              (snd (process_messages env (take i messages) 0 s)))"
proof (induction messages arbitrary: i s)
  case Nil
  then show ?case by simp
next
  case (Cons message messages)
  obtain ok s' where p: "consumer_process_message env message s = (ok, s')"
    by (cases "consumer_process_message env message s")
  show ?case
  proof (cases i)
    case 0
    with p show ?thesis by simp
  next
    case (Suc j)
    with Cons.prems have "j < length messages" by simp
    from Cons.IH [OF this, of s'] p Suc
      process_messages_state [of env "take j messages" "if ok then 0 + 1 else 0" s']
    show ?thesis by simp
  qed
qed

lemma process_messages_foldl:
  "snd (process_messages env messages successful s)
     = foldl (\<lambda>s message. snd (consumer_process_message env message s)) s messages"
  by (induction messages arbitrary: successful s) (auto split: prod.splits)

text \<open>
  C8: when the queue hands out a batch, \<open>poll_sqs\<close> gives every message of it to
  \<open>process_message\<close>, each in the state the messages before it have left, whatever their
  outcomes were: it returns the number of messages whose outcome was true, and the state
  it leaves is the one reached by running \<open>process_message\<close> on every message in turn.
\<close>

theorem poll_sqs_counts_every_message:
  assumes "sqs_receive_message env (length (trace s)) = Inr messages"
    and "s0 = s\<lparr>trace := trace s @ [SqsReceive (Inr messages)]\<rparr>"
  shows "fst (poll_sqs env s) = Inr (length (filter id (batch_outcomes env messages s0)))
       \<and> length (batch_outcomes env messages s0) = length messages
       \<and> (\<forall>i<length messages.
            batch_outcomes env messages s0 ! i
              = fst (consumer_process_message env (messages ! i)
                       (snd (process_messages env (take i messages) 0 s0))))
       \<and> snd (poll_sqs env s) = snd (process_messages env messages 0 s0)
       \<and> snd (poll_sqs env s)
            = foldl (\<lambda>s message. snd (consumer_process_message env message s)) s0 messages
       \<and> (\<forall>i<length messages.
            batch_outcomes env messages s0 ! i
              = fst (consumer_process_message env (messages ! i)
                       (foldl (\<lambda>s message. snd (consumer_process_message env message s)) s0
                          (take i messages))))"
proof -
  have count: "fst (poll_sqs env s) = Inr (length (filter id (batch_outcomes env messages s0)))"
  proof (cases "messages = []")
    case True
    with assms show ?thesis by (simp add: poll_sqs_def)
  next
    case False
    obtain n s' where p: "process_messages env messages 0 s0 = (n, s')"
      by (cases "process_messages env messages 0 s0")
    with process_messages_count [of env messages 0 s0]
    have "n = length (filter id (batch_outcomes env messages s0))" by simp
    with assms False p show ?thesis by (simp add: poll_sqs_def)
  qed
  have len: "length (batch_outcomes env messages s0) = length messages"
    by (rule length_batch_outcomes)
  have nth: "\<forall>i<length messages.
            batch_outcomes env messages s0 ! i
              = fst (consumer_process_message env (messages ! i)
                       (snd (process_messages env (take i messages) 0 s0)))"
    by (simp add: batch_outcomes_nth)
  have state: "snd (poll_sqs env s) = snd (process_messages env messages 0 s0)"
  proof (cases "messages = []")
    case True
    with assms show ?thesis by (simp add: poll_sqs_def)
  next
    case False
    obtain n s' where p: "process_messages env messages 0 s0 = (n, s')"
      by (cases "process_messages env messages 0 s0")
    with assms False show ?thesis by (simp add: poll_sqs_def)
  qed
  have fold: "snd (poll_sqs env s)
            = foldl (\<lambda>s message. snd (consumer_process_message env message s)) s0 messages"
    using state by (simp only: process_messages_foldl)
  have nth_fold: "\<forall>i<length messages.
            batch_outcomes env messages s0 ! i
              = fst (consumer_process_message env (messages ! i)
                       (foldl (\<lambda>s message. snd (consumer_process_message env message s)) s0
                          (take i messages)))"
    using nth by (simp only: process_messages_foldl)
  from count len nth state fold nth_fold show ?thesis by blast
qed

theorem poll_sqs_counts_every_message_witness:
  "poll_sqs sample_consumer_env initial_consumer_state
     = (Inr 1,
        \<lparr>s3_objects = [''messages/2024/01/01/m1.json'' \<mapsto> ''[ 1, 2 ]''],
          trace = [SqsReceive (Inr [bad_message, good_message]), UtcNow sample_date,
                   S3Put ''messages/2024/01/01/m1.json'' ''[ 1, 2 ]'' None,
                   SqsDelete ''r1'' None]\<rparr>)
   \<and> batch_outcomes sample_consumer_env [bad_message, good_message]
        \<lparr>s3_objects = Map.empty, trace = [SqsReceive (Inr [bad_message, good_message])]\<rparr>
      = [False, True]"
proof -
  let ?s0 = "\<lparr>s3_objects = Map.empty,
                trace = [SqsReceive (Inr [bad_message, good_message])]\<rparr>"
  have r: "sqs_receive_message sample_consumer_env (length (trace initial_consumer_state))
             = Inr [bad_message, good_message]"
    by (simp add: sample_consumer_env_def)
  have s0: "?s0 = initial_consumer_state\<lparr>trace := trace initial_consumer_state
                  @ [SqsReceive (Inr [bad_message, good_message])]\<rparr>"
    by (simp add: initial_consumer_state_def)
  have bad: "consumer_process_message sample_consumer_env bad_message ?s0 = (False, ?s0)"
    by (simp add: consumer_process_message_def bad_message_def sample_consumer_env_def)
  have good: "consumer_process_message sample_consumer_env good_message ?s0
     = (True, \<lparr>s3_objects = [''messages/2024/01/01/m1.json'' \<mapsto> ''[ 1, 2 ]''],
          trace = [SqsReceive (Inr [bad_message, good_message]), UtcNow sample_date,
                   S3Put ''messages/2024/01/01/m1.json'' ''[ 1, 2 ]'' None,
                   SqsDelete ''r1'' None]\<rparr>)"
    by (simp add: Let_def consumer_process_message_def upload_to_s3_def sample_key
          good_message_def sample_consumer_env_def)
  have b: "batch_outcomes sample_consumer_env [bad_message, good_message] ?s0 = [False, True]"
    by (simp add: bad good)
  have f: "foldl (\<lambda>s message. snd (consumer_process_message sample_consumer_env message s)) ?s0
             [bad_message, good_message]
           = \<lparr>s3_objects = [''messages/2024/01/01/m1.json'' \<mapsto> ''[ 1, 2 ]''],
          trace = [SqsReceive (Inr [bad_message, good_message]), UtcNow sample_date,
                   S3Put ''messages/2024/01/01/m1.json'' ''[ 1, 2 ]'' None,
                   SqsDelete ''r1'' None]\<rparr>"
    by (simp add: bad good)
  from poll_sqs_counts_every_message [OF r s0]
  have "fst (poll_sqs sample_consumer_env initial_consumer_state)
          = Inr (length (filter id (batch_outcomes sample_consumer_env
                   [bad_message, good_message] ?s0)))"
    and "snd (poll_sqs sample_consumer_env initial_consumer_state)
          = foldl (\<lambda>s message. snd (consumer_process_message sample_consumer_env message s)) ?s0
             [bad_message, good_message]"
    by blast+
  with b f show ?thesis by (simp add: prod_eq_iff)
qed

end
